theory Spec2Isabelle
  imports Complex_Main "HOL-Library.Multiset"
begin

section \<open>Strings\<close>

text \<open>
  A JavaScript string is modelled by the list of the bytes of its UTF-8 encoding
  (\<^typ>\<open>string\<close>). An ASCII text occurs in a string exactly when its bytes occur in
  the encoding, so \<open>includes\<close> with the ASCII keywords of the loader is exact. Case
  conversion, \<open>trim\<close> and the classes of the regular expression are the ASCII part of
  what JavaScript does: characters outside ASCII are left as they are and are no
  whitespace. (The two lower-case mappings of JavaScript that produce an ASCII letter
  from another character give \<open>i\<close> followed by a combining dot, and \<open>k\<close>; no keyword
  of the loader ends in \<open>i\<close> or contains \<open>k\<close>, so keyword search is not affected.)
\<close>

definition toLowerChar :: "char \<Rightarrow> char" where
  "toLowerChar c =
     (let n = (of_char c :: nat) in if 65 \<le> n \<and> n \<le> 90 then char_of (n + 32) else c)"

definition toUpperChar :: "char \<Rightarrow> char" where
  "toUpperChar c =
     (let n = (of_char c :: nat) in if 97 \<le> n \<and> n \<le> 122 then char_of (n - 32) else c)"

definition toLowerCase :: "string \<Rightarrow> string" where
  "toLowerCase s = map toLowerChar s"

text \<open>\<open>s.startsWith(k)\<close> and \<open>s.includes(k)\<close> on strings (substring test).\<close>

fun startsWith :: "string \<Rightarrow> string \<Rightarrow> bool" where
  "startsWith s [] = True"
| "startsWith [] (k # ks) = False"
| "startsWith (c # cs) (k # ks) = (c = k \<and> startsWith cs ks)"

fun includes_str :: "string \<Rightarrow> string \<Rightarrow> bool" where
  "includes_str [] k = (k = [])"
| "includes_str (c # cs) k = (startsWith (c # cs) k \<or> includes_str cs k)"

text \<open>\<open>s.split(sep)\<close> for a one-character separator: never the empty array.\<close>

fun split :: "char \<Rightarrow> string \<Rightarrow> string list" where
  "split sep [] = [[]]"
| "split sep (c # cs) =
     (if c = sep then [] # split sep cs
      else (case split sep cs of
              [] \<Rightarrow> [[c]]
            | p # ps \<Rightarrow> (c # p) # ps))"

text \<open>\<open>parts.join(sep)\<close>.\<close>

fun join :: "string \<Rightarrow> string list \<Rightarrow> string" where
  "join sep [] = []"
| "join sep [p] = p"
| "join sep (p # q # ps) = p @ sep @ join sep (q # ps)"

text \<open>
  The character classes of the regular expression \<open>/^#\s+(.+)$/m\<close>: \<open>\s\<close> (tab, line
  feed, vertical tab, form feed, carriage return, space) and the line terminators that
  \<open>.\<close> refuses and at which \<open>^\<close> and \<open>$\<close> match under the \<open>m\<close> flag.
\<close>

definition isSpace :: "char \<Rightarrow> bool" where
  "isSpace c = (let n = (of_char c :: nat) in (9 \<le> n \<and> n \<le> 13) \<or> n = 32)"

definition isLineTerminator :: "char \<Rightarrow> bool" where
  "isLineTerminator c = (let n = (of_char c :: nat) in n = 10 \<or> n = 13)"

definition trim :: "string \<Rightarrow> string" where
  "trim s = rev (dropWhile isSpace (rev (dropWhile isSpace s)))"

text \<open>
  Node's \<open>path.basename(p, '.md')\<close> on a POSIX path \<open>p\<close> with no trailing slash: the
  empty string when \<open>p\<close> is the suffix itself; otherwise the last segment, without the
  suffix \<open>.md\<close> unless the segment is no longer than the suffix.
\<close>

definition basename_md :: "string \<Rightarrow> string" where
  "basename_md p =
     (let seg = last (split (CHR ''/'') p) in
      if p = ''.md'' then []
      else if 3 < length seg \<and> drop (length seg - 3) seg = ''.md''
      then take (length seg - 3) seg else seg)"

section \<open>JavaScript values\<close>

text \<open>
  The header data that gray-matter hands over is untyped (\<open>frontmatter: any\<close>), and the
  loader copies most of it into the metadata as it is. \<open>jsval\<close> is the type of the
  values that a YAML header can hold: \<open>undefined\<close> (a property that is not there),
  \<open>null\<close>, booleans, numbers (with \<open>NaN\<close> and the two infinities apart), strings,
  sequences (arrays), mappings (plain objects, as their own properties in order) and
  timestamps (\<open>Date\<close> objects, as their time value). Values of the explicitly tagged YAML
  type \<open>!!binary\<close> are not modelled.
\<close>

datatype jsval =
    JUndefined
  | JNull
  | JBool bool
  | JNum real
  | JNaN
  | JInfinity bool
  | JStr string
  | JArr "jsval list"
  | JObj "(string \<times> jsval) list"
  | JDate int

datatype error = TypeError

text \<open>\<open>ToBoolean\<close>, and \<open>a || b\<close>.\<close>

definition truthy :: "jsval \<Rightarrow> bool" where
  "truthy v =
     (case v of
        JUndefined \<Rightarrow> False
      | JNull \<Rightarrow> False
      | JBool b \<Rightarrow> b
      | JNum x \<Rightarrow> x \<noteq> 0
      | JNaN \<Rightarrow> False
      | JInfinity s \<Rightarrow> True
      | JStr s \<Rightarrow> s \<noteq> []
      | JArr xs \<Rightarrow> True
      | JObj kvs \<Rightarrow> True
      | JDate t \<Rightarrow> True)"

definition orElse :: "jsval \<Rightarrow> jsval \<Rightarrow> jsval" where
  "orElse a b = (if truthy a then a else b)"

text \<open>Primitive values are compared by value, objects by identity.\<close>

definition isObject :: "jsval \<Rightarrow> bool" where
  "isObject v = (case v of JArr xs \<Rightarrow> True | JObj kvs \<Rightarrow> True | JDate t \<Rightarrow> True | _ \<Rightarrow> False)"

text \<open>
  \<open>o.key\<close> on a plain object given by its own properties: the value of the property,
  \<open>undefined\<close> when there is none. (The names read by the loader and the analyzer are
  no members of \<open>Object.prototype\<close>.)
\<close>

definition getProp :: "(string \<times> jsval) list \<Rightarrow> string \<Rightarrow> jsval" where
  "getProp kvs key = (case map_of kvs key of None \<Rightarrow> JUndefined | Some v \<Rightarrow> v)"

text \<open>
  \<open>v.key\<close> for any value that is neither \<open>undefined\<close> nor \<open>null\<close>, for a \<open>key\<close> that
  is a property of plain objects only (\<open>frameworks\<close>): strings, numbers, booleans,
  arrays and dates have no such property.
\<close>

definition getMember :: "jsval \<Rightarrow> string \<Rightarrow> jsval" where
  "getMember v key = (case v of JObj kvs \<Rightarrow> getProp kvs key | _ \<Rightarrow> JUndefined)"

text \<open>
  \<open>v.includes(s)\<close> for a string \<open>s\<close>: membership in an array (the elements are compared
  with \<open>s\<close> by value), the substring test on a string. Every other value has no method
  \<open>includes\<close> (a mapping with a property of that name has a value there that cannot be
  called), and the call throws a \<open>TypeError\<close>.
\<close>

definition includesJS :: "jsval \<Rightarrow> string \<Rightarrow> error + bool" where
  "includesJS v s =
     (case v of
        JArr xs \<Rightarrow> Inr (JStr s \<in> set xs)
      | JStr t \<Rightarrow> Inr (includes_str t s)
      | _ \<Rightarrow> Inl TypeError)"

text \<open>
  \<open>ToString(v)\<close> throws a \<open>TypeError\<close> for a mapping with an own property \<open>toString\<close>
  (its value cannot be called, and the inherited \<open>valueOf\<close> returns the object), and for
  an array one of whose elements makes \<open>join\<close> throw.
\<close>

fun toStringThrows :: "jsval \<Rightarrow> bool" where
  "toStringThrows (JObj kvs) = (''toString'' \<in> fst ` set kvs)"
| "toStringThrows (JArr xs) = (\<exists>x \<in> set xs. toStringThrows x)"
| "toStringThrows v = False"

text \<open>
  \<open>ToString(v)\<close>, as far as a table with word keys can tell: \<open>Some s\<close> when it is the
  text \<open>s\<close>; \<open>None\<close> when it is the text of a number or of a date, \<open>[object Object]\<close>,
  or the elements of an array of two or more joined by commas, none of which is a word.
  An array of one element gives the text of that element, the empty text for \<open>null\<close>
  and \<open>undefined\<close>.
\<close>

fun wordOf :: "jsval \<Rightarrow> string option" where
  "wordOf (JStr s) = Some s"
| "wordOf (JBool b) = Some (if b then ''true'' else ''false'')"
| "wordOf JNull = Some ''null''"
| "wordOf JUndefined = Some ''undefined''"
| "wordOf (JArr []) = Some []"
| "wordOf (JArr [x]) = (if x = JNull \<or> x = JUndefined then Some [] else wordOf x)"
| "wordOf (JArr (x # y # zs)) = None"
| "wordOf v = None"

section \<open>Data model (types/rule.ts, src/unnamed/part_009)\<close>

text \<open>\<open>language: string | string[]\<close>; the loader always infers it, so it has this type.\<close>

datatype Language = Single string | Many "string list"

text \<open>
  \<open>RuleMetadata\<close>. The field \<open>id\<close> is named \<open>rule_id\<close>. \<open>category\<close> and \<open>language\<close>
  are computed by the loader and have their declared types; every other field holds
  whatever value the header gave (\<open>JUndefined\<close> for a field that is not set), whatever
  type the interface declares for it.
\<close>

record RuleMetadata =
  rule_id :: jsval
  title :: jsval
  description :: jsval
  category :: string
  subcategory :: jsval
  language :: Language
  tags :: jsval
  difficulty :: jsval
  priority :: jsval
  applicability :: jsval
  prerequisites :: jsval
  related :: jsval
  outcomes :: jsval
  version :: jsval
  lastUpdated :: jsval
  author :: jsval
  references :: jsval

record Rule =
  metadata :: RuleMetadata
  content :: string
  filePath :: string

text \<open>
  The \<open>data\<close> object of gray-matter, the argument \<open>frontmatter: any\<close> of
  \<open>generateMetadata\<close>: the properties of the header, empty when the document has none.
\<close>

type_synonym Frontmatter = "(string \<times> jsval) list"

section \<open>Metadata extraction (utils/rule-loader.ts, src/unnamed/part_012)\<close>

definition validCategories :: "string list" where
  "validCategories =
     [''general'', ''coding'', ''writing'', ''research'', ''communication'', ''data'',
      ''project-management'', ''security'', ''devops'']"

definition inferCategory :: "string \<Rightarrow> string" where
  "inferCategory dirName = (if dirName \<in> set validCategories then dirName else ''general'')"

text \<open>
  \<open>content.match(/^#\s+(.+)$/m)\<close>. \<open>matchHeadingAt s\<close> tries the pattern where \<open>s\<close> is
  the input from a line start on, and returns the capture group. After \<open>#\<close> the greedy
  \<open>\s+\<close> takes the whole run of whitespace; if a character follows the run, \<open>(.+)\<close>
  takes the rest of that line. If the run reaches the end of the input, \<open>\s+\<close> gives
  characters back one at a time (keeping at least one), and the match succeeds as soon as
  the character given back last is no line terminator: that character is the capture.
\<close>

definition matchHeadingAt :: "string \<Rightarrow> string option" where
  "matchHeadingAt s =
     (case s of
        [] \<Rightarrow> None
      | c # rest \<Rightarrow>
          if c \<noteq> CHR ''#'' then None
          else
            (let run = takeWhile isSpace rest; after = dropWhile isSpace rest in
             if run = [] then None
             else if after \<noteq> [] then Some (takeWhile (\<lambda>x. \<not> isLineTerminator x) after)
             else
               (case filter (\<lambda>x. \<not> isLineTerminator x) (tl run) of
                  [] \<Rightarrow> None
                | y # ys \<Rightarrow> Some [last (y # ys)])))"

fun firstHeading :: "bool \<Rightarrow> string \<Rightarrow> string option" where
  "firstHeading atLineStart [] = None"
| "firstHeading atLineStart (c # cs) =
     (case (if atLineStart then matchHeadingAt (c # cs) else None) of
        Some cap \<Rightarrow> Some cap
      | None \<Rightarrow> firstHeading (isLineTerminator c) cs)"

definition extractTitle :: "string \<Rightarrow> string option" where
  "extractTitle cont = map_option trim (firstHeading True cont)"

definition capitalize :: "string \<Rightarrow> string" where
  "capitalize word = (case word of [] \<Rightarrow> [] | c # cs \<Rightarrow> toUpperChar c # cs)"

definition formatTitle :: "string \<Rightarrow> string" where
  "formatTitle filename =
     join '' '' (map capitalize
       (split (CHR '' '') (map (\<lambda>c. if c = CHR ''-'' then CHR '' '' else c) filename)))"

text \<open>\<open>Object.entries(languageMap)\<close>, in insertion order.\<close>

definition languageMap :: "(string \<times> string) list" where
  "languageMap =
     [(''python'', ''python''), (''javascript'', ''javascript''),
      (''typescript'', ''typescript''), (''go'', ''go''), (''rust'', ''rust''),
      (''java'', ''java''), (''csharp'', ''csharp''), (''c#'', ''csharp'')]"

definition inferLanguage :: "string \<Rightarrow> string \<Rightarrow> Language" where
  "inferLanguage filename cont =
     (case find (\<lambda>(key, val). includes_str (toLowerCase filename) key) languageMap of
        Some (key, val) \<Rightarrow> Single val
      | None \<Rightarrow>
          (let contentLower = toLowerCase cont;
               languages = map snd (filter (\<lambda>(key, val). includes_str contentLower key) languageMap)
           in if length languages > 0 then Many languages else Single ''universal''))"

text \<open>\<open>Object.entries(commonTags)\<close>, in insertion order.\<close>

definition commonTags :: "(string \<times> string list) list" where
  "commonTags =
     [(''performance'', [''performance'', ''optimization'']),
      (''security'', [''security'']),
      (''testing'', [''testing'', ''tdd'', ''unit-tests'']),
      (''accessibility'', [''accessibility'', ''a11y'']),
      (''best-practices'', [''best-practices''])]"

text \<open>\<open>Set.prototype.add\<close> on a set kept in insertion order.\<close>

definition setAdd :: "string list \<Rightarrow> string \<Rightarrow> string list" where
  "setAdd s x = (if x \<in> set s then s else s @ [x])"

definition generateTags :: "string \<Rightarrow> string \<Rightarrow> string list" where
  "generateTags filename cont =
     (let lowerFilename = toLowerCase filename;
          lowerContent = toLowerCase cont;
          tags0 = fold (\<lambda>(key, vals) acc.
                    if includes_str lowerFilename key \<or> includes_str lowerContent key
                    then fold (\<lambda>tag acc'. setAdd acc' tag) vals acc else acc)
                  commonTags []
      in if length tags0 = 0 then setAdd tags0 ''best-practices'' else tags0)"

text \<open>
  \<open>generateMetadata\<close>. \<open>relativePath\<close> is what the library call
  \<open>path.relative(this.rulesDir, filePath)\<close> returns, with \<open>/\<close> as \<open>path.sep\<close>;
  \<open>filePath'\<close> is the path of the file as passed. \<open>parts[0]\<close> of an empty array would
  be \<open>undefined\<close>, which is no valid category. \<open>extractTitle\<close> returns a string or
  \<open>null\<close>.
\<close>

definition generateMetadata :: "string \<Rightarrow> string \<Rightarrow> Frontmatter \<Rightarrow> string \<Rightarrow> RuleMetadata" where
  "generateMetadata relativePath filePath' frontmatter cont =
     (let parts = split (CHR ''/'') relativePath;
          category' = (case parts of [] \<Rightarrow> ''general'' | p # ps \<Rightarrow> inferCategory p);
          filename = basename_md filePath';
          title' = orElse (orElse (getProp frontmatter ''title'')
                             (case extractTitle cont of None \<Rightarrow> JNull | Some t \<Rightarrow> JStr t))
                     (JStr (formatTitle filename));
          id' = orElse (getProp frontmatter ''id'') (JStr filename);
          language' = inferLanguage filename cont;
          tags' = orElse (getProp frontmatter ''tags'')
                    (JArr (map JStr (generateTags filename cont)))
      in \<lparr>rule_id = id',
          title = title',
          description = getProp frontmatter ''description'',
          category = category',
          subcategory = getProp frontmatter ''subcategory'',
          language = language',
          tags = tags',
          difficulty = getProp frontmatter ''difficulty'',
          priority = getProp frontmatter ''priority'',
          applicability = getProp frontmatter ''applicability'',
          prerequisites = getProp frontmatter ''prerequisites'',
          related = getProp frontmatter ''related'',
          outcomes = getProp frontmatter ''outcomes'',
          version = orElse (getProp frontmatter ''version'') (JStr ''1.0.0''),
          lastUpdated = getProp frontmatter ''lastUpdated'',
          author = getProp frontmatter ''author'',
          references = getProp frontmatter ''references''\<rparr>)"

text \<open>
  \<open>loadRule\<close> for an absolute path \<open>filePath'\<close> (as \<open>loadAllRules\<close> passes it), from the
  point where the file has been read and gray-matter has split it into header data and
  body. The rule's \<open>filePath\<close> is the relative path.
\<close>

definition loadRule :: "string \<Rightarrow> string \<Rightarrow> Frontmatter \<Rightarrow> string \<Rightarrow> Rule" where
  "loadRule relativePath filePath' frontmatter cont =
     \<lparr>metadata = generateMetadata relativePath filePath' frontmatter cont,
      content = cont,
      filePath = relativePath\<rparr>"

section \<open>The store\<close>

text \<open>
  Arrays of rules are mutable objects, shared by reference: \<open>push\<close> and \<open>sort\<close> change
  an array in place, \<open>filter\<close> makes a new one. The store is the list of all arrays
  allocated so far, and a reference is a position in it. Rule objects themselves are
  never written to and are kept as values. A call that can throw returns the exception
  or its result, and the store as it is then.
\<close>

type_synonym addr = nat
type_synonym heap = "Rule list list"

definition newArray :: "Rule list \<Rightarrow> heap \<Rightarrow> addr \<times> heap" where
  "newArray xs h = (length h, h @ [xs])"

text \<open>\<open>dst.push(...src)\<close>.\<close>

definition push :: "addr \<Rightarrow> addr \<Rightarrow> heap \<Rightarrow> heap" where
  "push dst src h = h[dst := h ! dst @ h ! src]"

text \<open>\<open>a.filter(p)\<close>: a fresh array, \<open>a\<close> untouched.\<close>

definition arrayFilter :: "(Rule \<Rightarrow> bool) \<Rightarrow> addr \<Rightarrow> heap \<Rightarrow> addr \<times> heap" where
  "arrayFilter p a h = newArray (filter p (h ! a)) h"

text \<open>
  \<open>a.filter(p)\<close> and \<open>a.some(p)\<close> for a callback that can throw: the elements are
  visited in order, and the first exception ends the call.
\<close>

fun filterE :: "('a \<Rightarrow> error + bool) \<Rightarrow> 'a list \<Rightarrow> error + 'a list" where
  "filterE p [] = Inr []"
| "filterE p (x # xs) =
     (case p x of
        Inl e \<Rightarrow> Inl e
      | Inr b \<Rightarrow>
          (case filterE p xs of
             Inl e \<Rightarrow> Inl e
           | Inr ys \<Rightarrow> Inr (if b then x # ys else ys)))"

fun someE :: "('a \<Rightarrow> error + bool) \<Rightarrow> 'a list \<Rightarrow> error + bool" where
  "someE p [] = Inr False"
| "someE p (x # xs) =
     (case p x of
        Inl e \<Rightarrow> Inl e
      | Inr b \<Rightarrow> if b then Inr True else someE p xs)"

definition arrayFilterE :: "(Rule \<Rightarrow> error + bool) \<Rightarrow> addr \<Rightarrow> heap \<Rightarrow> (error + addr) \<times> heap" where
  "arrayFilterE p a h =
     (case filterE p (h ! a) of
        Inl e \<Rightarrow> (Inl e, h)
      | Inr xs \<Rightarrow> (case newArray xs h of (r, h') \<Rightarrow> (Inr r, h')))"

text \<open>
  \<open>a.sort(compareFn)\<close> sorts \<open>a\<close> in place and returns \<open>a\<close>. A comparator returns a
  number (\<open>None\<close> is \<open>NaN\<close>) or throws. \<open>Array.prototype.sort\<close> is a built-in of the
  language: what it makes of the content of an array is the parameter \<open>srt\<close> of the
  model (a \<open>sorter\<close>). When it throws, the order in which the elements are left is not
  fixed by the language; the array that the analyzer sorts is reachable from nowhere
  else then, and the model leaves it as it was.
\<close>

type_synonym 'a compareFn = "'a \<Rightarrow> 'a \<Rightarrow> error + int option"

type_synonym sorter = "Rule compareFn \<Rightarrow> Rule list \<Rightarrow> error + Rule list"

definition arraySort :: "sorter \<Rightarrow> Rule compareFn \<Rightarrow> addr \<Rightarrow> heap \<Rightarrow> (error + addr) \<times> heap" where
  "arraySort srt cmp a h =
     (case srt cmp (h ! a) of
        Inl e \<Rightarrow> (Inl e, h)
      | Inr ys \<Rightarrow> (Inr a, h[a := ys]))"


text \<open>
  One conforming sorter: insertion from the right, with \<open>NaN\<close> read as 0 as
  \<open>SortCompare\<close> does.
\<close>

fun insertSorted :: "'a compareFn \<Rightarrow> 'a \<Rightarrow> 'a list \<Rightarrow> error + 'a list" where
  "insertSorted cmp x [] = Inr [x]"
| "insertSorted cmp x (y # ys) =
     (case cmp x y of
        Inl e \<Rightarrow> Inl e
      | Inr v \<Rightarrow>
          if (case v of None \<Rightarrow> 0 | Some n \<Rightarrow> n) \<le> 0 then Inr (x # y # ys)
          else (case insertSorted cmp x ys of
                  Inl e \<Rightarrow> Inl e
                | Inr zs \<Rightarrow> Inr (y # zs)))"

fun insertionSort :: "'a compareFn \<Rightarrow> 'a list \<Rightarrow> error + 'a list" where
  "insertionSort cmp [] = Inr []"
| "insertionSort cmp (x # xs) =
     (case insertionSort cmp xs of
        Inl e \<Rightarrow> Inl e
      | Inr ys \<Rightarrow> insertSorted cmp x ys)"

section \<open>Queries and recommendation (analyzer/rule-analyzer.ts, src/unnamed/part_011)\<close>

text \<open>
  \<open>ScenarioContext\<close>, without the fields \<open>environment\<close> and \<open>complexity\<close>, which the
  analyzer never reads. \<open>type\<close> is optional here: the analyzer tests it like the others.
\<close>

record ScenarioContext =
  ctx_type :: "string option"
  ctx_language :: "string option"
  ctx_framework :: "string option"
  ctx_priorities :: "string list option"

text \<open>\<open>RuleBundle\<close>; its \<open>rules\<close> is a reference to an array.\<close>

record RuleBundle =
  bundle_name :: string
  bundle_description :: string
  rules :: addr
  scenarios :: "string list"

text \<open>
  A \<open>RuleAnalyzer\<close> is its field \<open>rules\<close>: the reference to the array that
  \<open>initialize\<close> stored, the index.
\<close>

type_synonym RuleAnalyzer = addr

definition getAllRules :: "RuleAnalyzer \<Rightarrow> heap \<Rightarrow> addr \<times> heap" where
  "getAllRules this h = (this, h)"

text \<open>
  The callbacks of the searches and of the framework filter. Those of \<open>searchByTags\<close>
  and of the framework filter call \<open>includes\<close> on a value that the loader copied from
  the header, and can throw.
\<close>

definition matchesTags :: "string list \<Rightarrow> Rule \<Rightarrow> error + bool" where
  "matchesTags tags' rule = someE (\<lambda>tag. includesJS (tags (metadata rule)) tag) tags'"

definition ruleLangs :: "Rule \<Rightarrow> string list" where
  "ruleLangs rule = (case language (metadata rule) of Many ls \<Rightarrow> ls | Single l \<Rightarrow> [l])"

definition matchesLanguage :: "string \<Rightarrow> Rule \<Rightarrow> bool" where
  "matchesLanguage lang rule =
     (lang \<in> set (ruleLangs rule) \<or> ''universal'' \<in> set (ruleLangs rule))"

definition matchesCategory :: "string \<Rightarrow> Rule \<Rightarrow> bool" where
  "matchesCategory cat rule = (category (metadata rule) = cat)"

text \<open>
  \<open>rule.metadata.applicability?.frameworks?.includes(framework)\<close>: \<open>undefined\<close>
  (falsy) when \<open>applicability\<close> or its \<open>frameworks\<close> is \<open>undefined\<close> or \<open>null\<close>.
\<close>

definition matchesFramework :: "string \<Rightarrow> Rule \<Rightarrow> error + bool" where
  "matchesFramework framework rule =
     (let a = applicability (metadata rule) in
      if a = JUndefined \<or> a = JNull then Inr False
      else
        (let fs = getMember a ''frameworks'' in
         if fs = JUndefined \<or> fs = JNull then Inr False
         else includesJS fs framework))"

definition searchByTags :: "RuleAnalyzer \<Rightarrow> string list \<Rightarrow> heap \<Rightarrow> (error + addr) \<times> heap" where
  "searchByTags this tags' h = arrayFilterE (matchesTags tags') this h"

definition searchByLanguage :: "RuleAnalyzer \<Rightarrow> string \<Rightarrow> heap \<Rightarrow> addr \<times> heap" where
  "searchByLanguage this lang h = arrayFilter (matchesLanguage lang) this h"

definition searchByCategory :: "RuleAnalyzer \<Rightarrow> string \<Rightarrow> heap \<Rightarrow> addr \<times> heap" where
  "searchByCategory this cat h = arrayFilter (matchesCategory cat) this h"

text \<open>
  \<open>deduplicateRules\<close>: the filter callback reads and extends the set \<open>seen\<close>;
  \<open>keepUnseen\<close> is the filter with that set passed along. A \<open>Set\<close> finds a primitive
  value again by its value, and an object (an id that the header gave as a sequence, a
  mapping or a timestamp) only as the same object: the id object of the same rule.
  \<open>seenKey\<close> is what the set tells apart.
\<close>

definition seenKey :: "Rule \<Rightarrow> jsval + Rule" where
  "seenKey rule =
     (if isObject (rule_id (metadata rule)) then Inr rule else Inl (rule_id (metadata rule)))"

fun keepUnseen :: "(jsval + Rule) set \<Rightarrow> Rule list \<Rightarrow> Rule list" where
  "keepUnseen seen [] = []"
| "keepUnseen seen (rule # rs) =
     (if seenKey rule \<in> seen then keepUnseen seen rs
      else rule # keepUnseen (insert (seenKey rule) seen) rs)"

definition deduplicateRules :: "addr \<Rightarrow> heap \<Rightarrow> addr \<times> heap" where
  "deduplicateRules a h = newArray (keepUnseen {} (h ! a)) h"

text \<open>
  \<open>priorityOrder[key]\<close> as a number: \<open>None\<close> when the table has no such key (the value
  read is \<open>undefined\<close> or a member of \<open>Object.prototype\<close>, and gives \<open>NaN\<close> in a
  subtraction).
\<close>

definition priorityOrder :: "string \<Rightarrow> int option" where
  "priorityOrder key =
     map_of [(''critical'', 0), (''high'', 1), (''medium'', 2), (''low'', 3)] key"

text \<open>
  \<open>priorityOrder[rule.metadata.priority || 'medium']\<close>: the value is made a property
  key by \<open>ToString\<close>.
\<close>

definition priorityRank :: "Rule \<Rightarrow> error + int option" where
  "priorityRank rule =
     (let p = orElse (priority (metadata rule)) (JStr ''medium'') in
      if toStringThrows p then Inl TypeError
      else Inr (case wordOf p of None \<Rightarrow> None | Some key \<Rightarrow> priorityOrder key))"

text \<open>\<open>aPriority - bPriority\<close>: \<open>NaN\<close> unless both are numbers.\<close>

definition comparePriority :: "Rule compareFn" where
  "comparePriority a b =
     (case priorityRank a of
        Inl e \<Rightarrow> Inl e
      | Inr aPriority \<Rightarrow>
          (case priorityRank b of
             Inl e \<Rightarrow> Inl e
           | Inr bPriority \<Rightarrow>
               Inr (case (aPriority, bPriority) of
                      (Some x, Some y) \<Rightarrow> Some (x - y)
                    | _ \<Rightarrow> None)))"

definition sortByPriority :: "sorter \<Rightarrow> addr \<Rightarrow> heap \<Rightarrow> (error + addr) \<times> heap" where
  "sortByPriority srt a h = arraySort srt comparePriority a h"

text \<open>\<open>if (context.f) parts.push(context.f)\<close>: what an optional string adds when truthy.\<close>

definition present :: "string option \<Rightarrow> string list" where
  "present v = (case v of None \<Rightarrow> [] | Some s \<Rightarrow> if s = [] then [] else [s])"

definition generateBundleName :: "ScenarioContext \<Rightarrow> string" where
  "generateBundleName context =
     (let parts = present (ctx_language context) @ present (ctx_type context)
                  @ present (ctx_framework context)
      in if length parts > 0 then join ''-'' parts @ ''-bundle'' else ''custom-bundle'')"

definition generateBundleDescription :: "ScenarioContext \<Rightarrow> string" where
  "generateBundleDescription context =
     (let parts = [''Rules for''] @ present (ctx_language context)
                  @ present (ctx_type context)
                  @ map (\<lambda>f. ''using '' @ f) (present (ctx_framework context))
                  @ (case ctx_priorities context of
                       None \<Rightarrow> []
                     | Some ps \<Rightarrow>
                         if length ps > 0 then [''with focus on '' @ join '', '' ps] else [])
      in join '' '' parts)"

text \<open>
  \<open>recommendBundle\<close>, block by block. Each block works on the store and on the local
  array \<open>scenarios\<close>; \<open>rec\<close> is the reference held by \<open>recommendedRules\<close>.
\<close>

type_synonym work = "heap \<times> string list"

definition addGeneral :: "RuleAnalyzer \<Rightarrow> addr \<Rightarrow> work \<Rightarrow> work" where
  "addGeneral this rec w =
     (case w of (h, sc) \<Rightarrow>
        (case searchByCategory this ''general'' h of (generalRules, h') \<Rightarrow>
           (push rec generalRules h', sc @ [''general-ai-operations''])))"

definition addCategory :: "RuleAnalyzer \<Rightarrow> addr \<Rightarrow> ScenarioContext \<Rightarrow> work \<Rightarrow> work" where
  "addCategory this rec context w =
     (case w of (h, sc) \<Rightarrow>
        (case ctx_type context of
           None \<Rightarrow> (h, sc)
         | Some t \<Rightarrow>
             if t = [] then (h, sc)
             else (case searchByCategory this t h of (categoryRules, h') \<Rightarrow>
                     (push rec categoryRules h', sc @ [t @ ''-tasks'']))))"

definition addLanguage :: "RuleAnalyzer \<Rightarrow> addr \<Rightarrow> ScenarioContext \<Rightarrow> work \<Rightarrow> work" where
  "addLanguage this rec context w =
     (case w of (h, sc) \<Rightarrow>
        (case ctx_language context of
           None \<Rightarrow> (h, sc)
         | Some l \<Rightarrow>
             if l = [] then (h, sc)
             else (case searchByLanguage this l h of (languageRules, h') \<Rightarrow>
                     (push rec languageRules h', sc @ [l @ ''-development'']))))"

fun forPriorities ::
  "RuleAnalyzer \<Rightarrow> addr \<Rightarrow> string list \<Rightarrow> work \<Rightarrow> (error + string list) \<times> heap"
where
  "forPriorities this rec [] w = (case w of (h, sc) \<Rightarrow> (Inr sc, h))"
| "forPriorities this rec (p # ps) w =
     (case w of (h, sc) \<Rightarrow>
        (case searchByTags this [p] h of
           (Inl e, h') \<Rightarrow> (Inl e, h')
         | (Inr priorityRules, h') \<Rightarrow>
             forPriorities this rec ps (push rec priorityRules h', sc @ [p @ ''-focused''])))"

definition addPriorities ::
  "RuleAnalyzer \<Rightarrow> addr \<Rightarrow> ScenarioContext \<Rightarrow> work \<Rightarrow> (error + string list) \<times> heap"
where
  "addPriorities this rec context w =
     (case ctx_priorities context of
        None \<Rightarrow> (case w of (h, sc) \<Rightarrow> (Inr sc, h))
      | Some ps \<Rightarrow> forPriorities this rec ps w)"

definition addFramework ::
  "RuleAnalyzer \<Rightarrow> addr \<Rightarrow> ScenarioContext \<Rightarrow> work \<Rightarrow> (error + string list) \<times> heap"
where
  "addFramework this rec context w =
     (case w of (h, sc) \<Rightarrow>
        (case ctx_framework context of
           None \<Rightarrow> (Inr sc, h)
         | Some framework \<Rightarrow>
             if framework = [] then (Inr sc, h)
             else (case arrayFilterE (matchesFramework framework) this h of
                     (Inl e, h') \<Rightarrow> (Inl e, h')
                   | (Inr frameworkRules, h') \<Rightarrow>
                       (Inr (sc @ [framework @ ''-framework'']), push rec frameworkRules h'))))"

definition recommendBundle ::
  "sorter \<Rightarrow> RuleAnalyzer \<Rightarrow> ScenarioContext \<Rightarrow> heap \<Rightarrow> (error + RuleBundle) \<times> heap"
where
  "recommendBundle srt this context h =
     (case newArray [] h of (recommendedRules, h0) \<Rightarrow>
        (case addPriorities this recommendedRules context
                (addLanguage this recommendedRules context
                  (addCategory this recommendedRules context
                    (addGeneral this recommendedRules (h0, [])))) of
           (Inl e, h1) \<Rightarrow> (Inl e, h1)
         | (Inr sc1, h1) \<Rightarrow>
             (case addFramework this recommendedRules context (h1, sc1) of
                (Inl e, h2) \<Rightarrow> (Inl e, h2)
              | (Inr scenarios', h2) \<Rightarrow>
                  (case deduplicateRules recommendedRules h2 of (uniqueRules, h3) \<Rightarrow>
                     (case sortByPriority srt uniqueRules h3 of
                        (Inl e, h4) \<Rightarrow> (Inl e, h4)
                      | (Inr sortedRules, h4) \<Rightarrow>
                          (Inr \<lparr>bundle_name = generateBundleName context,
                                bundle_description = generateBundleDescription context,
                                rules = sortedRules,
                                scenarios = scenarios'\<rparr>, h4))))))"




section \<open>Specification-level notions\<close>

text \<open>
  The working list as the specification describes it: the results of the facet queries
  on the index \<open>idx\<close>, in the order general, type, language, each priority facet in
  the order given, framework. An absent or empty string triggers no query. The queries
  by tag and by framework can throw; the first exception, in that order, is the result.
\<close>

fun priorityFacets :: "Rule list \<Rightarrow> string list \<Rightarrow> error + Rule list" where
  "priorityFacets idx [] = Inr []"
| "priorityFacets idx (p # ps) =
     (case filterE (matchesTags [p]) idx of
        Inl e \<Rightarrow> Inl e
      | Inr xs \<Rightarrow>
          (case priorityFacets idx ps of
             Inl e \<Rightarrow> Inl e
           | Inr ys \<Rightarrow> Inr (xs @ ys)))"

definition frameworkFacet :: "Rule list \<Rightarrow> ScenarioContext \<Rightarrow> error + Rule list" where
  "frameworkFacet idx context =
     (case present (ctx_framework context) of
        [] \<Rightarrow> Inr []
      | f # fs \<Rightarrow> filterE (matchesFramework f) idx)"

definition workingList :: "Rule list \<Rightarrow> ScenarioContext \<Rightarrow> error + Rule list" where
  "workingList idx context =
     (case priorityFacets idx (case ctx_priorities context of None \<Rightarrow> [] | Some ps \<Rightarrow> ps) of
        Inl e \<Rightarrow> Inl e
      | Inr byPriority \<Rightarrow>
          (case frameworkFacet idx context of
             Inl e \<Rightarrow> Inl e
           | Inr byFramework \<Rightarrow>
               Inr (filter (matchesCategory ''general'') idx
                    @ concat (map (\<lambda>t. filter (matchesCategory t) idx) (present (ctx_type context)))
                    @ concat (map (\<lambda>l. filter (matchesLanguage l) idx)
                                (present (ctx_language context)))
                    @ byPriority
                    @ byFramework)))"

text \<open>The facet labels, in the same order.\<close>

definition facetLabels :: "ScenarioContext \<Rightarrow> string list" where
  "facetLabels context =
     [''general-ai-operations'']
     @ map (\<lambda>t. t @ ''-tasks'') (present (ctx_type context))
     @ map (\<lambda>l. l @ ''-development'') (present (ctx_language context))
     @ map (\<lambda>p. p @ ''-focused'') (case ctx_priorities context of None \<Rightarrow> [] | Some ps \<Rightarrow> ps)
     @ map (\<lambda>f. f @ ''-framework'') (present (ctx_framework context))"

text \<open>
  Deduplication by id as the specification words it: of the working list, exactly the
  elements that no earlier element shares its id with, in their order; ids are the same
  as a \<open>Set\<close> tells (\<open>seenKey\<close>).
\<close>

definition firstOccurrences :: "Rule list \<Rightarrow> Rule list" where
  "firstOccurrences ws =
     map (nth ws)
       (filter (\<lambda>i. \<forall>j \<in> set [0..<i]. seenKey (ws ! j) \<noteq> seenKey (ws ! i))
          [0..<length ws])"


text \<open>The tags of a rule as a set, when they are an array.\<close>

definition tagSet :: "Rule \<Rightarrow> jsval set" where
  "tagSet rule = (case tags (metadata rule) of JArr xs \<Rightarrow> set xs | _ \<Rightarrow> {})"

text \<open>
  \<open>preserved rec h h'\<close>: from store \<open>h\<close> to store \<open>h'\<close> every array of \<open>h\<close> but the
  one at \<open>rec\<close> is as it was; \<open>appended rec xs h h'\<close>: and that one has grown by \<open>xs\<close>.
\<close>

definition preserved :: "addr \<Rightarrow> heap \<Rightarrow> heap \<Rightarrow> bool" where
  "preserved rec h h' \<longleftrightarrow>
     length h \<le> length h' \<and> (\<forall>a<length h. a \<noteq> rec \<longrightarrow> h' ! a = h ! a)"

definition appended :: "addr \<Rightarrow> Rule list \<Rightarrow> heap \<Rightarrow> heap \<Rightarrow> bool" where
  "appended rec xs h h' \<longleftrightarrow> preserved rec h h' \<and> h' ! rec = h ! rec @ xs"

text \<open>
  What \<open>recommendBundle\<close> returns as the content of the array \<open>rules\<close>, or throws, as a
  function of the index.
\<close>

definition bundleRules :: "sorter \<Rightarrow> Rule list \<Rightarrow> ScenarioContext \<Rightarrow> error + Rule list" where
  "bundleRules srt idx context =
     (case workingList idx context of
        Inl e \<Rightarrow> Inl e
      | Inr ws \<Rightarrow> srt comparePriority (keepUnseen {} ws))"


section \<open>Example data\<close>

text \<open>
  An index of five rules. The first and the last have the same id, as \<open>general/rules.md\<close>
  and \<open>coding/rules.md\<close> have when neither header declares an id.
\<close>

definition mkRule :: "string \<Rightarrow> string \<Rightarrow> Language \<Rightarrow> string list \<Rightarrow> jsval \<Rightarrow> Rule" where
  "mkRule i cat lang ts prio =
     \<lparr>metadata =
        \<lparr>rule_id = JStr i, title = JStr i, description = JUndefined, category = cat,
         subcategory = JUndefined, language = lang, tags = JArr (map JStr ts),
         difficulty = JUndefined, priority = prio, applicability = JUndefined,
         prerequisites = JUndefined, related = JUndefined, outcomes = JUndefined,
         version = JStr ''1.0.0'', lastUpdated = JUndefined, author = JUndefined,
         references = JUndefined\<rparr>,
      content = [], filePath = cat @ ''/'' @ i @ ''.md''\<rparr>"

definition exampleIndex :: "Rule list" where
  "exampleIndex =
     [mkRule ''rules'' ''general'' (Single ''universal'') [''best-practices''] JUndefined,
      mkRule ''python-rules'' ''coding'' (Single ''python'') [''security''] (JStr ''high''),
      mkRule ''testing-rules'' ''coding'' (Single ''universal'') [''testing'', ''tdd'']
        (JStr ''critical''),
      mkRule ''go-rules'' ''coding'' (Many [''go'', ''rust'']) [''performance''] JUndefined,
      mkRule ''rules'' ''coding'' (Single ''universal'') [''best-practices''] (JStr ''critical'')]"

definition exampleHeap :: heap where
  "exampleHeap = [exampleIndex]"

definition exampleContext :: ScenarioContext where
  "exampleContext =
     \<lparr>ctx_type = Some ''coding'', ctx_language = Some ''python'', ctx_framework = None,
      ctx_priorities = Some [''security'', ''performance'']\<rparr>"

text \<open>Headers: one that declares a category, one that declares an empty list of tags.\<close>

definition exampleHeader :: Frontmatter where
  "exampleHeader = [(''category'', JStr ''security'')]"

definition emptyTagsHeader :: Frontmatter where
  "emptyTagsHeader = [(''tags'', JArr [])]"



text \<open>
  Rules loaded from headers with \<open>tags: 5\<close> and with \<open>tags: security\<close> (a number and a
  string, not a list).
\<close>

definition numberTagsRule :: Rule where
  "numberTagsRule =
     loadRule ''coding/style-rules.md'' ''/repo/coding/style-rules.md'' [(''tags'', JNum 5)] ''# Style''"

definition stringTagsRule :: Rule where
  "stringTagsRule =
     loadRule ''coding/style-rules.md'' ''/repo/coding/style-rules.md''
       [(''tags'', JStr ''security'')] ''# Style''"

section \<open>Auxiliary facts\<close>

subsection \<open>Extraction\<close>

lemmas example_defs = exampleContext_def exampleIndex_def mkRule_def

lemmas match_defs = matchesCategory_def matchesLanguage_def matchesTags_def matchesFramework_def
  ruleLangs_def includesJS_def

lemmas rank_defs = comparePriority_def priorityRank_def priorityOrder_def orElse_def truthy_def

lemma split_nonempty: "split sep s \<noteq> []"
  by (induction s) (auto split: list.splits)

lemma generateMetadata_category:
  "category (generateMetadata rp fp fm c) = inferCategory (hd (split (CHR ''/'') rp))"
  using split_nonempty[of "CHR ''/''" rp]
  by (cases "split (CHR ''/'') rp") (simp_all add: generateMetadata_def Let_def)

lemma generateTags_nonempty: "generateTags f c \<noteq> []"
  by (simp add: generateTags_def Let_def setAdd_def)

lemma fold_no_keyword:
  assumes "\<forall>(key, vals) \<in> set kvs. \<not> P key"
  shows "fold (\<lambda>(key, vals) acc. if P key then g vals acc else acc) kvs acc = acc"
  using assms by (induction kvs arbitrary: acc) auto

lemma generateTags_fallback:
  assumes "\<forall>(key, vals) \<in> set commonTags.
             \<not> includes_str (toLowerCase f) key \<and> \<not> includes_str (toLowerCase c) key"
  shows "generateTags f c = [''best-practices'']"
proof -
  have "fold (\<lambda>(key, vals) acc.
                if includes_str (toLowerCase f) key \<or> includes_str (toLowerCase c) key
                then fold (\<lambda>tag acc'. setAdd acc' tag) vals acc else acc) commonTags [] = []"
    using assms by (intro fold_no_keyword) auto
  then show ?thesis by (simp add: generateTags_def setAdd_def)
qed

subsection \<open>The store during a recommendation\<close>

lemma preserved_refl: "preserved rec h h"
  by (simp add: preserved_def)

lemma preserved_trans:
  assumes "preserved rec h h1" and "preserved rec h1 h2"
  shows "preserved rec h h2"
  using assms unfolding preserved_def by auto

lemma appended_preserved: "appended rec xs h h' \<Longrightarrow> preserved rec h h'"
  by (simp add: appended_def)

lemma appended_refl: "appended rec [] h h"
  by (simp add: appended_def preserved_def)

lemma appended_trans:
  assumes "appended rec xs h h1" and "appended rec ys h1 h2"
  shows "appended rec (xs @ ys) h h2"
  using assms unfolding appended_def preserved_def by auto

lemma preserved_index:
  assumes "preserved rec h h'" and "this < length h" and "this \<noteq> rec"
  shows "h' ! this = h ! this" and "this < length h'"
  using assms unfolding preserved_def by auto

lemma preserved_length:
  assumes "preserved rec h h'" and "a < length h"
  shows "a < length h'"
  using assms unfolding preserved_def by auto

lemma filter_push_appended:
  assumes "this < length h" and "rec < length h"
  shows "(case arrayFilter P this h of (a, h') \<Rightarrow> appended rec (filter P (h ! this)) h (push rec a h'))"
  using assms
  by (auto simp: arrayFilter_def newArray_def push_def appended_def preserved_def nth_append
      nth_list_update)

lemma filterE_push_appended:
  assumes "this < length h" and "rec < length h"
  shows "(case arrayFilterE P this h of
            (Inl e, h') \<Rightarrow> filterE P (h ! this) = Inl e \<and> h' = h
          | (Inr a, h') \<Rightarrow>
              (\<exists>xs. filterE P (h ! this) = Inr xs \<and> appended rec xs h (push rec a h')))"
  using assms
  by (auto simp: arrayFilterE_def newArray_def push_def appended_def preserved_def nth_append
      nth_list_update split: sum.splits)

lemma addGeneral_spec:
  assumes "this < length h" and "rec < length h"
  shows "appended rec (filter (matchesCategory ''general'') (h ! this)) h (fst (addGeneral this rec (h, sc)))"
    and "snd (addGeneral this rec (h, sc)) = sc @ [''general-ai-operations'']"
  using filter_push_appended[OF assms, of "matchesCategory ''general''"]
  by (auto simp: addGeneral_def searchByCategory_def split: prod.splits)

lemma addCategory_spec:
  assumes "this < length h" and "rec < length h"
  shows "appended rec (concat (map (\<lambda>t. filter (matchesCategory t) (h ! this)) (present (ctx_type context)))) h
           (fst (addCategory this rec context (h, sc)))"
    and "snd (addCategory this rec context (h, sc)) = sc @ map (\<lambda>t. t @ ''-tasks'') (present (ctx_type context))"
  using filter_push_appended[OF assms, of "matchesCategory (the (ctx_type context))"]
  by (auto simp: addCategory_def searchByCategory_def present_def appended_refl split: prod.splits option.splits)

lemma addLanguage_spec:
  assumes "this < length h" and "rec < length h"
  shows "appended rec (concat (map (\<lambda>l. filter (matchesLanguage l) (h ! this)) (present (ctx_language context)))) h
           (fst (addLanguage this rec context (h, sc)))"
    and "snd (addLanguage this rec context (h, sc)) = sc @ map (\<lambda>l. l @ ''-development'') (present (ctx_language context))"
  using filter_push_appended[OF assms, of "matchesLanguage (the (ctx_language context))"]
  by (auto simp: addLanguage_def searchByLanguage_def present_def appended_refl split: prod.splits option.splits)

lemma forPriorities_spec:
  assumes "this < length h" and "rec < length h" and "this \<noteq> rec"
  shows "(case forPriorities this rec ps (h, sc) of
            (Inl e, h') \<Rightarrow> priorityFacets (h ! this) ps = Inl e \<and> preserved rec h h'
          | (Inr sc', h') \<Rightarrow>
              (\<exists>xs. priorityFacets (h ! this) ps = Inr xs \<and> appended rec xs h h') \<and>
              sc' = sc @ map (\<lambda>p. p @ ''-focused'') ps)"
  using assms
proof (induction ps arbitrary: h sc)
  case Nil
  then show ?case by (simp add: appended_refl)
next
  case (Cons p ps)
  note F = filterE_push_appended[OF Cons.prems(1,2), of "matchesTags [p]"]
  show ?case
  proof (cases "arrayFilterE (matchesTags [p]) this h")
    case (Pair res h1)
    show ?thesis
    proof (cases res)
      case (Inl e)
      then show ?thesis using F Pair by (simp add: searchByTags_def preserved_refl)
    next
      case (Inr a)
      let ?h2 = "push rec a h1"
      from F Pair Inr obtain xs where xs: "filterE (matchesTags [p]) (h ! this) = Inr xs"
        and ap: "appended rec xs h ?h2" by auto
      have pr: "preserved rec h ?h2" using ap by (rule appended_preserved)
      have idx: "?h2 ! this = h ! this" "this < length ?h2"
        using preserved_index[OF pr Cons.prems(1,3)] by simp_all
      have rl: "rec < length ?h2" using preserved_length[OF pr Cons.prems(2)] .
      note IH = Cons.IH[OF idx(2) rl Cons.prems(3), of "sc @ [p @ ''-focused'']"]
      show ?thesis
      proof (cases "forPriorities this rec ps (?h2, sc @ [p @ ''-focused''])")
        case (Pair res' h3)
        show ?thesis
        proof (cases res')
          case (Inl e)
          then show ?thesis
            using IH Pair \<open>arrayFilterE (matchesTags [p]) this h = (res, h1)\<close> Inr xs
              preserved_trans[OF pr]
            by (simp add: searchByTags_def idx(1))
        next
          case (Inr sc')
          with IH Pair obtain ys where ys: "priorityFacets (h ! this) ps = Inr ys"
            and ap2: "appended rec ys ?h2 h3" and lb: "sc' = (sc @ [p @ ''-focused'']) @ map (\<lambda>p. p @ ''-focused'') ps"
            by (auto simp: idx(1))
          show ?thesis
            using appended_trans[OF ap ap2] ys xs lb Pair Inr
              \<open>arrayFilterE (matchesTags [p]) this h = (res, h1)\<close> \<open>res = Inr a\<close>
            by (simp add: searchByTags_def)
        qed
      qed
    qed
  qed
qed

lemma addFramework_spec:
  assumes "this < length h" and "rec < length h"
  shows "(case addFramework this rec context (h, sc) of
            (Inl e, h') \<Rightarrow> frameworkFacet (h ! this) context = Inl e \<and> preserved rec h h'
          | (Inr sc', h') \<Rightarrow>
              (\<exists>xs. frameworkFacet (h ! this) context = Inr xs \<and> appended rec xs h h') \<and>
              sc' = sc @ map (\<lambda>f. f @ ''-framework'') (present (ctx_framework context)))"
proof (cases "present (ctx_framework context)")
  case Nil
  then show ?thesis
    by (auto simp: addFramework_def frameworkFacet_def present_def appended_refl
        split: option.splits if_splits)
next
  case (Cons f fs)
  then have c: "ctx_framework context = Some f" "f \<noteq> []" "fs = []"
    by (auto simp: present_def split: option.splits if_splits)
  note F = filterE_push_appended[OF assms, of "matchesFramework f"]
  show ?thesis
    using F c
    by (auto simp: addFramework_def frameworkFacet_def present_def preserved_refl
        split: prod.splits sum.splits)
qed

lemma facets_appended:
  assumes "this < length h" and "rec < length h" and "this \<noteq> rec"
  shows "(case addLanguage this rec context
                 (addCategory this rec context (addGeneral this rec (h, sc))) of
            (h', sc') \<Rightarrow>
              appended rec
                (filter (matchesCategory ''general'') (h ! this)
                 @ concat (map (\<lambda>t. filter (matchesCategory t) (h ! this)) (present (ctx_type context)))
                 @ concat (map (\<lambda>l. filter (matchesLanguage l) (h ! this))
                             (present (ctx_language context)))) h h' \<and>
              sc' = sc @ [''general-ai-operations'']
                    @ map (\<lambda>t. t @ ''-tasks'') (present (ctx_type context))
                    @ map (\<lambda>l. l @ ''-development'') (present (ctx_language context)))"
proof -
  let ?idx = "h ! this"
  obtain h1 s1 where w1: "addGeneral this rec (h, sc) = (h1, s1)" by (cases "addGeneral this rec (h, sc)")
  have a1: "appended rec (filter (matchesCategory ''general'') ?idx) h h1"
    and l1: "s1 = sc @ [''general-ai-operations'']"
    using addGeneral_spec[OF assms(1,2), of sc] w1 by simp_all
  have p1: "preserved rec h h1" using a1 by (rule appended_preserved)
  have i1: "h1 ! this = ?idx" "this < length h1" using preserved_index[OF p1 assms(1,3)] by simp_all
  have r1: "rec < length h1" using preserved_length[OF p1 assms(2)] .
  obtain h2 s2 where w2: "addCategory this rec context (h1, s1) = (h2, s2)"
    by (cases "addCategory this rec context (h1, s1)")
  have a2: "appended rec (concat (map (\<lambda>t. filter (matchesCategory t) ?idx) (present (ctx_type context)))) h1 h2"
    and l2: "s2 = s1 @ map (\<lambda>t. t @ ''-tasks'') (present (ctx_type context))"
    using addCategory_spec[OF i1(2) r1, of "context" s1] w2 by (simp_all add: i1(1))
  have p2: "preserved rec h1 h2" using a2 by (rule appended_preserved)
  have i2: "h2 ! this = ?idx" "this < length h2" using preserved_index[OF p2 i1(2) assms(3)] i1(1) by simp_all
  have r2: "rec < length h2" using preserved_length[OF p2 r1] .
  obtain h3 s3 where w3: "addLanguage this rec context (h2, s2) = (h3, s3)"
    by (cases "addLanguage this rec context (h2, s2)")
  have a3: "appended rec (concat (map (\<lambda>l. filter (matchesLanguage l) ?idx) (present (ctx_language context)))) h2 h3"
    and l3: "s3 = s2 @ map (\<lambda>l. l @ ''-development'') (present (ctx_language context))"
    using addLanguage_spec[OF i2(2) r2, of "context" s2] w3 by (simp_all add: i2(1))
  note A = appended_trans[OF a1 appended_trans[OF a2 a3]]
  show ?thesis unfolding w1 w2 w3 using A by (simp add: l1 l2 l3)
qed

lemma recommendBundle_spec:
  assumes "this < length h" and "recommendBundle srt this context h = (res, h')"
  shows "length h < length h'"
    and "\<forall>a<length h. h' ! a = h ! a"
    and "(case res of
            Inl e \<Rightarrow> bundleRules srt (h ! this) context = Inl e
          | Inr b \<Rightarrow>
              length h \<le> rules b \<and> rules b < length h' \<and>
              bundleRules srt (h ! this) context = Inr (h' ! rules b) \<and>
              scenarios b = facetLabels context \<and>
              bundle_name b = generateBundleName context \<and>
              bundle_description b = generateBundleDescription context)"
proof -
  let ?rec = "length h"
  let ?h0 = "h @ [[]]"
  let ?idx = "h ! this"
  let ?G = "filter (matchesCategory ''general'') ?idx
                 @ concat (map (\<lambda>t. filter (matchesCategory t) ?idx) (present (ctx_type context)))
                 @ concat (map (\<lambda>l. filter (matchesLanguage l) ?idx)
                             (present (ctx_language context)))"
  let ?ps = "case ctx_priorities context of None \<Rightarrow> [] | Some ps \<Rightarrow> ps"
  have t0: "this < length ?h0" "?rec < length ?h0" "this \<noteq> ?rec" using assms(1) by simp_all
  have idx0: "?h0 ! this = ?idx" using assms(1) by (simp add: nth_append)
  have rec0: "?h0 ! ?rec = []" by simp
  have base: "\<forall>a<length h. ?h0 ! a = h ! a" by (simp add: nth_append)
  obtain h1 s1 where w1: "addLanguage this ?rec context
                 (addCategory this ?rec context (addGeneral this ?rec (?h0, []))) = (h1, s1)"
    by (cases "addLanguage this ?rec context
                 (addCategory this ?rec context (addGeneral this ?rec (?h0, [])))")
  from facets_appended[OF t0, of "context" "[]"] w1
  have a1: "appended ?rec ?G ?h0 h1"
    and l1: "s1 = [''general-ai-operations'']
                    @ map (\<lambda>t. t @ ''-tasks'') (present (ctx_type context))
                    @ map (\<lambda>l. l @ ''-development'') (present (ctx_language context))"
    by (simp_all add: idx0)
  have p1: "preserved ?rec ?h0 h1" using a1 by (rule appended_preserved)
  have i1: "h1 ! this = ?idx" "this < length h1"
    using preserved_index[OF p1 t0(1,3)] idx0 by simp_all
  have r1: "?rec < length h1" using preserved_length[OF p1 t0(2)] .
  have c1: "h1 ! ?rec = ?G" using a1 by (simp add: appended_def)
  have f1: "\<forall>a<length h. h1 ! a = h ! a"
    using p1 base by (auto simp: preserved_def)
  have len1: "length h < length h1" using r1 .
  obtain res2 h2 where w2: "addPriorities this ?rec context (h1, s1) = (res2, h2)"
    by (cases "addPriorities this ?rec context (h1, s1)")
  have w2': "forPriorities this ?rec ?ps (h1, s1) = (res2, h2)"
    using w2 by (simp add: addPriorities_def split: option.splits)
  note P = forPriorities_spec[OF i1(2) r1 t0(3), of ?ps s1, unfolded w2' i1(1)]
  show "length h < length h'" and "\<forall>a<length h. h' ! a = h ! a"
    and "(case res of
            Inl e \<Rightarrow> bundleRules srt (h ! this) context = Inl e
          | Inr b \<Rightarrow>
              length h \<le> rules b \<and> rules b < length h' \<and>
              bundleRules srt (h ! this) context = Inr (h' ! rules b) \<and>
              scenarios b = facetLabels context \<and>
              bundle_name b = generateBundleName context \<and>
              bundle_description b = generateBundleDescription context)"
  proof (atomize (full), cases res2)
    case (Inl e)
    with P have pf: "priorityFacets ?idx ?ps = Inl e" and p2: "preserved ?rec h1 h2" by simp_all
    have r: "res = Inl e" "h' = h2"
      using assms(2) w1 w2 Inl by (simp_all add: recommendBundle_def newArray_def)
    have "\<forall>a<length h. h2 ! a = h ! a" using p2 f1 len1 by (auto simp: preserved_def)
    moreover have "length h < length h2" using p2 len1 by (auto simp: preserved_def)
    moreover have "bundleRules srt ?idx context = Inl e"
      using pf by (simp add: bundleRules_def workingList_def)
    ultimately show "length h < length h' \<and> (\<forall>a<length h. h' ! a = h ! a) \<and>
      (case res of
            Inl e \<Rightarrow> bundleRules srt (h ! this) context = Inl e
          | Inr b \<Rightarrow>
              length h \<le> rules b \<and> rules b < length h' \<and>
              bundleRules srt (h ! this) context = Inr (h' ! rules b) \<and>
              scenarios b = facetLabels context \<and>
              bundle_name b = generateBundleName context \<and>
              bundle_description b = generateBundleDescription context)"
      by (simp add: r)
  next
    case (Inr s2)
    with P obtain xs where pf: "priorityFacets ?idx ?ps = Inr xs"
      and a2: "appended ?rec xs h1 h2" and l2: "s2 = s1 @ map (\<lambda>p. p @ ''-focused'') ?ps"
      by auto
    have p2: "preserved ?rec h1 h2" using a2 by (rule appended_preserved)
    have i2: "h2 ! this = ?idx" "this < length h2"
      using preserved_index[OF p2 i1(2) t0(3)] i1(1) by simp_all
    have r2: "?rec < length h2" using preserved_length[OF p2 r1] .
    have c2: "h2 ! ?rec = ?G @ xs" using a2 c1 by (simp add: appended_def)
    have f2: "\<forall>a<length h. h2 ! a = h ! a" using p2 f1 len1 by (auto simp: preserved_def)
    obtain res3 h3 where w3: "addFramework this ?rec context (h2, s2) = (res3, h3)"
      by (cases "addFramework this ?rec context (h2, s2)")
    note Fw = addFramework_spec[OF i2(2) r2, of "context" s2, unfolded w3 i2(1)]
    show "length h < length h' \<and> (\<forall>a<length h. h' ! a = h ! a) \<and>
      (case res of
            Inl e \<Rightarrow> bundleRules srt (h ! this) context = Inl e
          | Inr b \<Rightarrow>
              length h \<le> rules b \<and> rules b < length h' \<and>
              bundleRules srt (h ! this) context = Inr (h' ! rules b) \<and>
              scenarios b = facetLabels context \<and>
              bundle_name b = generateBundleName context \<and>
              bundle_description b = generateBundleDescription context)"
    proof (cases res3)
      case (Inl e)
      with Fw have ff: "frameworkFacet ?idx context = Inl e" and p3: "preserved ?rec h2 h3"
        by simp_all
      have r: "res = Inl e" "h' = h3"
        using assms(2) w1 w2 w3 Inl \<open>res2 = Inr s2\<close>
        by (simp_all add: recommendBundle_def newArray_def)
      have "\<forall>a<length h. h3 ! a = h ! a" using p3 f2 r2 by (auto simp: preserved_def)
      moreover have "length h < length h3" using p3 r2 by (auto simp: preserved_def)
      moreover have "bundleRules srt ?idx context = Inl e"
        using pf ff by (simp add: bundleRules_def workingList_def)
      ultimately show ?thesis by (simp add: r)
    next
      case (Inr s3)
      with Fw obtain ys where ff: "frameworkFacet ?idx context = Inr ys"
        and a3: "appended ?rec ys h2 h3"
        and l3: "s3 = s2 @ map (\<lambda>f. f @ ''-framework'') (present (ctx_framework context))"
        by auto
      have p3: "preserved ?rec h2 h3" using a3 by (rule appended_preserved)
      have r3: "?rec < length h3" using preserved_length[OF p3 r2] .
      have c3: "h3 ! ?rec = ?G @ xs @ ys" using a3 c2 by (simp add: appended_def)
      have f3: "\<forall>a<length h. h3 ! a = h ! a" using p3 f2 r2 by (auto simp: preserved_def)
      have wl: "workingList ?idx context = Inr (?G @ xs @ ys)"
        using pf ff by (simp add: workingList_def)
      let ?h4 = "h3 @ [keepUnseen {} (?G @ xs @ ys)]"
      have st: "recommendBundle srt this context h =
          (case sortByPriority srt (length h3) ?h4 of
             (Inl e, h5) \<Rightarrow> (Inl e, h5)
           | (Inr sortedRules, h5) \<Rightarrow>
               (Inr \<lparr>bundle_name = generateBundleName context,
                     bundle_description = generateBundleDescription context,
                     rules = sortedRules,
                     scenarios = s3\<rparr>, h5))"
        using w1 w2 w3 Inr \<open>res2 = Inr s2\<close> c3
        by (simp add: recommendBundle_def newArray_def deduplicateRules_def)
      have lbl: "s3 = facetLabels context"
        by (simp add: l3 l2 l1 facetLabels_def)
      show ?thesis
      proof (cases "srt comparePriority (keepUnseen {} (?G @ xs @ ys))")
        case (Inl e)
        then have r: "res = Inl e" "h' = ?h4"
          using assms(2) st by (simp_all add: sortByPriority_def arraySort_def)
        have "bundleRules srt ?idx context = Inl e"
          using wl Inl by (simp add: bundleRules_def)
        then show ?thesis using f3 r3 by (simp add: r nth_append)
      next
        case (Inr zs)
        then have r: "res = Inr \<lparr>bundle_name = generateBundleName context,
                     bundle_description = generateBundleDescription context,
                     rules = length h3,
                     scenarios = s3\<rparr>" "h' = ?h4[length h3 := zs]"
          using assms(2) st by (simp_all add: sortByPriority_def arraySort_def)
        have "bundleRules srt ?idx context = Inr zs"
          using wl Inr by (simp add: bundleRules_def)
        then show ?thesis using f3 r3 lbl by (simp add: r nth_append)
      qed
    qed
  qed
qed

subsection \<open>Sorting\<close>











subsection \<open>Deduplication\<close>



lemma keepUnseen_nth:
  "keepUnseen seen ws =
     map (nth ws)
       (filter (\<lambda>i. seenKey (ws ! i) \<notin> seen \<and> (\<forall>j<i. seenKey (ws ! j) \<noteq> seenKey (ws ! i)))
          [0..<length ws])"
proof (induction ws arbitrary: seen)
  case Nil
  show ?case by simp
next
  case (Cons r rs)
  have upt: "[0..<length (r # rs)] = 0 # map Suc [0..<length rs]"
    by (simp add: upt_conv_Cons map_Suc_upt del: upt_Suc)
  show ?case
  proof (cases "seenKey r \<in> seen")
    case True
    have "filter (\<lambda>i. seenKey (rs ! i) \<notin> seen \<and> (\<forall>j<i. seenKey (rs ! j) \<noteq> seenKey (rs ! i)))
            [0..<length rs]
        = filter (\<lambda>i. seenKey (rs ! i) \<notin> seen \<and>
                      (\<forall>j<Suc i. seenKey ((r # rs) ! j) \<noteq> seenKey (rs ! i))) [0..<length rs]"
      using True by (intro filter_cong refl) (auto simp: All_less_Suc2)
    with True Cons.IH[of seen] show ?thesis
      unfolding upt by (simp add: filter_map comp_def)
  next
    case False
    have "filter (\<lambda>i. seenKey (rs ! i) \<notin> insert (seenKey r) seen \<and>
                      (\<forall>j<i. seenKey (rs ! j) \<noteq> seenKey (rs ! i))) [0..<length rs]
        = filter (\<lambda>i. seenKey (rs ! i) \<notin> seen \<and>
                      (\<forall>j<Suc i. seenKey ((r # rs) ! j) \<noteq> seenKey (rs ! i))) [0..<length rs]"
      by (intro filter_cong refl) (auto simp: All_less_Suc2)
    with False Cons.IH[of "insert (seenKey r) seen"] show ?thesis
      unfolding upt by (simp add: filter_map comp_def)
  qed
qed

lemma keepUnseen_firstOccurrences: "keepUnseen {} ws = firstOccurrences ws"
  by (simp add: keepUnseen_nth[of "{}" ws] firstOccurrences_def Ball_def)

lemma seenKey_primitive:
  assumes "\<not> isObject (rule_id (metadata a))" and "\<not> isObject (rule_id (metadata b))"
  shows "seenKey a = seenKey b \<longleftrightarrow> rule_id (metadata a) = rule_id (metadata b)"
  using assms by (simp add: seenKey_def)


subsection \<open>The rules of a bundle\<close>





subsection \<open>Rules on which nothing throws\<close>








subsection \<open>The examples\<close>

lemma example_workingList:
  "\<exists>ws. workingList exampleIndex exampleContext = Inr ws \<and>
        map (\<lambda>r. (rule_id (metadata r), category (metadata r))) (firstOccurrences ws)
          = [(JStr ''rules'', ''general''), (JStr ''python-rules'', ''coding''),
             (JStr ''testing-rules'', ''coding''), (JStr ''go-rules'', ''coding'')]"
  unfolding keepUnseen_firstOccurrences[symmetric]
  by (simp add: workingList_def frameworkFacet_def present_def example_defs match_defs
      seenKey_def isObject_def)

lemma example_bundleRules:
  "\<exists>rs. bundleRules insertionSort exampleIndex exampleContext = Inr rs \<and>
        map (\<lambda>r. (rule_id (metadata r), category (metadata r))) rs
          = [(JStr ''testing-rules'', ''coding''), (JStr ''python-rules'', ''coding''),
             (JStr ''rules'', ''general''), (JStr ''go-rules'', ''coding'')]"
  by (simp add: bundleRules_def workingList_def frameworkFacet_def present_def example_defs
      match_defs rank_defs seenKey_def isObject_def)

lemma example_call:
  obtains b h' where "recommendBundle insertionSort 0 exampleContext exampleHeap = (Inr b, h')"
    and "bundleRules insertionSort exampleIndex exampleContext = Inr (h' ! rules b)"
proof -
  obtain res h' where e: "recommendBundle insertionSort 0 exampleContext exampleHeap = (res, h')"
    by (cases "recommendBundle insertionSort 0 exampleContext exampleHeap")
  have l: "0 < length exampleHeap" by (simp add: exampleHeap_def)
  note R = recommendBundle_spec(3)[OF l e]
  obtain rs where rs: "bundleRules insertionSort exampleIndex exampleContext = Inr rs"
    using example_bundleRules by blast
  show ?thesis
  proof (cases res)
    case (Inl err)
    with R rs show ?thesis by (simp add: exampleHeap_def)
  next
    case (Inr b)
    with R e that show ?thesis by (simp add: exampleHeap_def)
  qed
qed

subsection \<open>Priorities of the table\<close>




subsection \<open>Searching by tag\<close>

lemma matchesTags_array:
  assumes "tags (metadata r) = JArr xs"
  shows "matchesTags ts r = Inr (tagSet r \<inter> JStr ` set ts \<noteq> {})"
proof -
  have "someE (\<lambda>tag. includesJS (JArr xs) tag) ts = Inr (set xs \<inter> JStr ` set ts \<noteq> {})"
    by (induction ts) (auto simp: includesJS_def)
  then show ?thesis using assms by (simp add: matchesTags_def tagSet_def)
qed

lemma filterE_tags_arrays:
  assumes "\<forall>r \<in> set idx. \<exists>xs. tags (metadata r) = JArr xs"
  shows "filterE (matchesTags ts) idx = Inr (filter (\<lambda>r. tagSet r \<inter> JStr ` set ts \<noteq> {}) idx)"
  using assms
proof (induction idx)
  case Nil
  then show ?case by simp
next
  case (Cons r idx)
  then obtain xs where "tags (metadata r) = JArr xs" by auto
  from matchesTags_array[OF this, of ts] Cons show ?case by simp
qed

lemma filterE_no_query: "filterE (matchesTags []) idx = Inr []"
  by (induction idx) (simp_all add: matchesTags_def)

lemma arrayFilter_frame:
  assumes "this < length h"
  shows "snd (arrayFilter P this h) ! this = h ! this"
  using assms by (simp add: arrayFilter_def newArray_def nth_append)

lemma arrayFilterE_frame:
  assumes "this < length h"
  shows "snd (arrayFilterE P this h) ! this = h ! this"
  using assms by (simp add: arrayFilterE_def newArray_def nth_append split: sum.splits)

subsection \<open>More examples\<close>


lemma numberTagsRule_tags: "tags (metadata numberTagsRule) = JNum 5"
  by (simp add: numberTagsRule_def loadRule_def generateMetadata_def Let_def getProp_def
      orElse_def truthy_def)

lemma stringTagsRule_tags: "tags (metadata stringTagsRule) = JStr ''security''"
  by (simp add: stringTagsRule_def loadRule_def generateMetadata_def Let_def getProp_def
      orElse_def truthy_def)




lemma string_tags_substring:
  "filterE (matchesTags [''sec'']) [stringTagsRule] = Inr [stringTagsRule]"
  by (simp add: matchesTags_def stringTagsRule_tags includesJS_def)

lemma number_tags_throw:
  "filterE (matchesTags [''nonexistent-tag'']) [numberTagsRule] = Inl TypeError"
  by (simp add: matchesTags_def numberTagsRule_tags includesJS_def)

section \<open>The claims\<close>

text \<open>
  C1. The claim: the extracted category is the header's \<open>category\<close> when one is
  declared, else the first path segment if it is one of the nine valid categories, else
  \<open>general\<close>. The loader never reads the header's \<open>category\<close>: for a document at
  \<open>coding/python-rules.md\<close> whose header declares \<open>category: security\<close> it returns
  \<open>coding\<close>.
\<close>

theorem C1_header_category_ignored:
  "getProp exampleHeader ''category'' = JStr ''security'' \<and>
   category (generateMetadata ''coding/python-rules.md'' ''/repo/coding/python-rules.md''
               exampleHeader ''# Python'') = ''coding''"
  by (simp add: generateMetadata_category exampleHeader_def getProp_def inferCategory_def
      validCategories_def)

text \<open>
  C2. The claim: the tags of every loaded rule are non-empty. A header that declares
  the empty list \<open>tags: []\<close> is passed through (an array is truthy), so the loaded rule
  has no tag.
\<close>

theorem C2_empty_header_tags:
  "getProp emptyTagsHeader ''tags'' = JArr [] \<and>
   tags (metadata (loadRule ''coding/style-rules.md'' ''/repo/coding/style-rules.md''
                     emptyTagsHeader ''# Style'')) = JArr []"
  by (simp add: loadRule_def generateMetadata_def Let_def emptyTagsHeader_def getProp_def
      orElse_def truthy_def)

text \<open>
  C2, amended. For every document whose header does not declare an empty \<open>tags\<close> list
  (it declares no \<open>tags\<close> field, or a list with at least one tag), the tags of the loaded
  rule are non-empty; and for a document with no \<open>tags\<close> header field (or a falsy one)
  and no keyword of the keyword table in its lowercased filename or body they are
  exactly \<open>best-practices\<close>.
\<close>

theorem C2_tags_nonempty_unless_declared_empty:
  assumes "getProp fm ''tags'' \<noteq> JArr []"
  shows "tags (metadata (loadRule rp fp fm c)) \<noteq> JArr [] \<and>
         (\<not> truthy (getProp fm ''tags'') \<and>
          (\<forall>(key, vals) \<in> set commonTags.
              \<not> includes_str (toLowerCase (basename_md fp)) key \<and>
              \<not> includes_str (toLowerCase c) key)
          \<longrightarrow> tags (metadata (loadRule rp fp fm c)) = JArr [JStr ''best-practices''])"
proof (cases "truthy (getProp fm ''tags'')")
  case True
  then show ?thesis
    using assms by (simp add: loadRule_def generateMetadata_def Let_def orElse_def)
next
  case False
  then show ?thesis
    using generateTags_nonempty[of "basename_md fp" c] generateTags_fallback[of "basename_md fp" c]
    by (simp add: loadRule_def generateMetadata_def Let_def orElse_def)
qed

theorem C2_tags_nonempty_unless_declared_empty_witness:
  "getProp [] ''tags'' \<noteq> JArr [] \<and>
   \<not> truthy (getProp [] ''tags'') \<and>
   list_all (\<lambda>(key, vals).
       \<not> includes_str (toLowerCase (basename_md ''/repo/general/rules.md'')) key \<and>
       \<not> includes_str (toLowerCase ''# Hello'') key) commonTags \<and>
   tags (metadata (loadRule ''general/rules.md'' ''/repo/general/rules.md'' [] ''# Hello''))
     = JArr [JStr ''best-practices'']"
proof -
  have g: "getProp [] ''tags'' \<noteq> JArr []" by (simp add: getProp_def)
  have f: "\<not> truthy (getProp [] ''tags'')" by (simp add: getProp_def truthy_def)
  have k: "list_all (\<lambda>(key, vals).
       \<not> includes_str (toLowerCase (basename_md ''/repo/general/rules.md'')) key \<and>
       \<not> includes_str (toLowerCase ''# Hello'') key) commonTags"
    by (simp add: commonTags_def basename_md_def toLowerCase_def toLowerChar_def)
  from C2_tags_nonempty_unless_declared_empty[OF g, of "''general/rules.md''"
      "''/repo/general/rules.md''" "''# Hello''"] k f g
  show ?thesis by (simp add: list_all_iff)
qed






text \<open>
  C5. The claim: a document whose header declares no \<open>priority\<close> gets the priority
  \<open>medium\<close> in its metadata at extraction time. The loader copies the header's field,
  so the metadata of such a document has no priority at all.
\<close>

theorem C5_priority_left_absent:
  "getProp [] ''priority'' = JUndefined \<and>
   priority (generateMetadata ''general/rules.md'' ''/repo/general/rules.md'' [] ''# Hello'')
     = JUndefined \<and>
   priority (generateMetadata ''general/rules.md'' ''/repo/general/rules.md'' [] ''# Hello'')
     \<noteq> JStr ''medium''"
  by (simp add: generateMetadata_def Let_def getProp_def)

text \<open>
  C5, amended. For every document whose header declares no \<open>priority\<close>, the metadata
  of the loaded rule has no priority; the default is applied where the priority is used:
  \<open>sortByPriority\<close> ranks such a rule as it ranks \<open>medium\<close>, that is 2.
\<close>

theorem C5_priority_default_at_sort:
  assumes "getProp fm ''priority'' = JUndefined"
  shows "priority (metadata (loadRule rp fp fm c)) = JUndefined \<and>
         priorityRank (loadRule rp fp fm c) = Inr (priorityOrder ''medium'') \<and>
         priorityOrder ''medium'' = Some 2"
  using assms
  by (simp add: loadRule_def generateMetadata_def Let_def priorityRank_def priorityOrder_def
      orElse_def truthy_def)

theorem C5_priority_default_at_sort_witness:
  "getProp [] ''priority'' = JUndefined \<and>
   priority (metadata (loadRule ''general/rules.md'' ''/repo/general/rules.md'' [] ''# Hello''))
     = JUndefined \<and>
   priorityRank (loadRule ''general/rules.md'' ''/repo/general/rules.md'' [] ''# Hello'')
     = Inr (Some 2)"
proof -
  have f: "getProp [] ''priority'' = JUndefined" by (simp add: getProp_def)
  from C5_priority_default_at_sort[OF f, of "''general/rules.md''" "''/repo/general/rules.md''"
      "''# Hello''"] f
  show ?thesis by simp
qed

text \<open>
  C6. For every rule \<open>r\<close> of the index and every language \<open>L\<close>,
  \<open>searchByLanguage(L)\<close> returns \<open>r\<close> if and only if \<open>L\<close> is \<open>r\<close>'s language or one of
  its languages, or \<open>universal\<close> is; so a rule whose language is \<open>universal\<close> is
  returned for every \<open>L\<close>. The result keeps the order of the index.
\<close>

theorem C6_searchByLanguage_matches:
  assumes "this < length h" and "searchByLanguage this L h = (a, h')"
  shows "h' ! a =
           filter (\<lambda>r. case language (metadata r) of
                          Single l \<Rightarrow> L = l \<or> l = ''universal''
                        | Many ls \<Rightarrow> L \<in> set ls \<or> ''universal'' \<in> set ls) (h ! this) \<and>
         (\<forall>r \<in> set (h ! this).
            r \<in> set (h' ! a) \<longleftrightarrow>
              (case language (metadata r) of
                 Single l \<Rightarrow> L = l \<or> l = ''universal''
               | Many ls \<Rightarrow> L \<in> set ls \<or> ''universal'' \<in> set ls)) \<and>
         (\<forall>r \<in> set (h ! this).
            language (metadata r) = Single ''universal'' \<longrightarrow> r \<in> set (h' ! a))"
proof -
  have m: "matchesLanguage L = (\<lambda>r. case language (metadata r) of
                          Single l \<Rightarrow> L = l \<or> l = ''universal''
                        | Many ls \<Rightarrow> L \<in> set ls \<or> ''universal'' \<in> set ls)"
    by (rule ext) (auto simp: matchesLanguage_def ruleLangs_def split: Language.splits)
  have "h' ! a = filter (matchesLanguage L) (h ! this)"
    using assms by (auto simp: searchByLanguage_def arrayFilter_def newArray_def)
  then show ?thesis unfolding m by auto
qed

theorem C6_searchByLanguage_matches_witness:
  "0 < length exampleHeap \<and>
   (case searchByLanguage 0 ''rust'' exampleHeap of
      (a, h') \<Rightarrow>
        map (\<lambda>r. rule_id (metadata r)) (h' ! a)
          = [JStr ''rules'', JStr ''testing-rules'', JStr ''go-rules'', JStr ''rules''])"
proof -
  have l: "0 < length exampleHeap" by (simp add: exampleHeap_def)
  obtain a h' where e: "searchByLanguage 0 ''rust'' exampleHeap = (a, h')"
    by (cases "searchByLanguage 0 ''rust'' exampleHeap")
  have "h' ! a = filter (\<lambda>r. case language (metadata r) of
                          Single l \<Rightarrow> ''rust'' = l \<or> l = ''universal''
                        | Many ls \<Rightarrow> ''rust'' \<in> set ls \<or> ''universal'' \<in> set ls) (exampleHeap ! 0)"
    using C6_searchByLanguage_matches[OF l e] by (rule conjunct1)
  then have "map (\<lambda>r. rule_id (metadata r)) (h' ! a)
          = [JStr ''rules'', JStr ''testing-rules'', JStr ''go-rules'', JStr ''rules'']"
    by (simp add: exampleHeap_def exampleIndex_def mkRule_def)
  then show ?thesis unfolding e using l by simp
qed

text \<open>
  C7. The claim: each of \<open>description\<close>, \<open>subcategory\<close>, \<open>difficulty\<close>, \<open>priority\<close>,
  \<open>applicability\<close>, \<open>prerequisites\<close>, \<open>related\<close>, \<open>outcomes\<close>, \<open>version\<close>,
  \<open>lastUpdated\<close>, \<open>author\<close>, \<open>references\<close> is left unset when the header does not
  declare it. For a document with no header at all the extracted \<open>version\<close> is
  \<open>1.0.0\<close>.
\<close>

theorem C7_version_defaulted:
  "getProp [] ''version'' = JUndefined \<and>
   version (generateMetadata ''general/rules.md'' ''/repo/general/rules.md'' [] ''# Hello'')
     = JStr ''1.0.0''"
  by (simp add: generateMetadata_def Let_def getProp_def orElse_def truthy_def)

text \<open>
  C7, amended. Each of \<open>description\<close>, \<open>subcategory\<close>, \<open>difficulty\<close>, \<open>priority\<close>,
  \<open>applicability\<close>, \<open>prerequisites\<close>, \<open>related\<close>, \<open>outcomes\<close>, \<open>lastUpdated\<close>,
  \<open>author\<close>, \<open>references\<close> is the header's value when the header declares the field,
  whatever that value is, and unset otherwise; \<open>version\<close> is the header's value when
  that value is truthy (any value but \<open>undefined\<close>, \<open>null\<close>, \<open>false\<close>, 0, \<open>NaN\<close> and
  the empty string), and the string \<open>1.0.0\<close> otherwise.
\<close>

theorem C7_optional_fields_pass_through:
  "description (generateMetadata rp fp fm c) = getProp fm ''description'' \<and>
   subcategory (generateMetadata rp fp fm c) = getProp fm ''subcategory'' \<and>
   difficulty (generateMetadata rp fp fm c) = getProp fm ''difficulty'' \<and>
   priority (generateMetadata rp fp fm c) = getProp fm ''priority'' \<and>
   applicability (generateMetadata rp fp fm c) = getProp fm ''applicability'' \<and>
   prerequisites (generateMetadata rp fp fm c) = getProp fm ''prerequisites'' \<and>
   related (generateMetadata rp fp fm c) = getProp fm ''related'' \<and>
   outcomes (generateMetadata rp fp fm c) = getProp fm ''outcomes'' \<and>
   lastUpdated (generateMetadata rp fp fm c) = getProp fm ''lastUpdated'' \<and>
   author (generateMetadata rp fp fm c) = getProp fm ''author'' \<and>
   references (generateMetadata rp fp fm c) = getProp fm ''references'' \<and>
   version (generateMetadata rp fp fm c) =
     (if getProp fm ''version'' \<in> {JUndefined, JNull, JBool False, JNum 0, JNaN, JStr []}
      then JStr ''1.0.0'' else getProp fm ''version'')"
proof -
  have "truthy v \<longleftrightarrow> v \<notin> {JUndefined, JNull, JBool False, JNum 0, JNaN, JStr []}" for v
    by (cases v) (auto simp: truthy_def)
  then show ?thesis by (simp add: generateMetadata_def Let_def orElse_def)
qed

text \<open>
  C8. For every store in which the index is allocated, every scenario context and every
  sort of the engine, the index array is the same after \<open>recommendBundle\<close> as before
  it, whether the call returns or throws, and likewise after \<open>searchByCategory\<close>,
  \<open>searchByLanguage\<close>, \<open>searchByTags\<close> and \<open>getAllRules\<close>; the array that
  \<open>recommendBundle\<close> sorts in place and returns is not the index.
\<close>

theorem C8_index_unchanged:
  assumes "this < length h"
  shows "snd (recommendBundle srt this context h) ! this = h ! this \<and>
         (\<forall>b. fst (recommendBundle srt this context h) = Inr b \<longrightarrow> rules b \<noteq> this) \<and>
         snd (searchByCategory this cat h) ! this = h ! this \<and>
         snd (searchByLanguage this lang h) ! this = h ! this \<and>
         snd (searchByTags this ts h) ! this = h ! this \<and>
         snd (getAllRules this h) ! this = h ! this"
proof -
  obtain res h' where e: "recommendBundle srt this context h = (res, h')"
    by (cases "recommendBundle srt this context h")
  note R = recommendBundle_spec[OF assms e]
  have 1: "h' ! this = h ! this" using R(2) assms by simp
  have 2: "\<forall>b. res = Inr b \<longrightarrow> rules b \<noteq> this" using R(3) assms by auto
  from 1 2 show ?thesis
    using assms
    by (simp add: e searchByCategory_def searchByLanguage_def searchByTags_def getAllRules_def
        arrayFilter_frame arrayFilterE_frame)
qed

theorem C8_index_unchanged_witness:
  "0 < length exampleHeap \<and>
   snd (recommendBundle insertionSort 0 exampleContext exampleHeap) ! 0 = exampleIndex \<and>
   snd (searchByCategory 0 ''coding'' exampleHeap) ! 0 = exampleIndex \<and>
   snd (searchByLanguage 0 ''python'' exampleHeap) ! 0 = exampleIndex \<and>
   snd (searchByTags 0 [''security''] exampleHeap) ! 0 = exampleIndex \<and>
   snd (getAllRules 0 exampleHeap) ! 0 = exampleIndex \<and>
   (case fst (recommendBundle insertionSort 0 exampleContext exampleHeap) of
      Inl e \<Rightarrow> False
    | Inr b \<Rightarrow> rules b \<noteq> 0)"
proof -
  have l: "0 < length exampleHeap" by (simp add: exampleHeap_def)
  have i: "exampleHeap ! 0 = exampleIndex" by (simp add: exampleHeap_def)
  obtain b h' where e: "recommendBundle insertionSort 0 exampleContext exampleHeap = (Inr b, h')"
    by (rule example_call)
  note T = C8_index_unchanged[OF l, of insertionSort exampleContext "''coding''" "''python''"
      "[''security'']"]
  from T have t: "\<forall>b. fst (recommendBundle insertionSort 0 exampleContext exampleHeap) = Inr b
                    \<longrightarrow> rules b \<noteq> 0"
    by (rule conjunct2[THEN conjunct1])
  have g: "rules b \<noteq> 0" using t e by simp
  have f: "snd (recommendBundle insertionSort 0 exampleContext exampleHeap) ! 0 = exampleIndex \<and>
   snd (searchByCategory 0 ''coding'' exampleHeap) ! 0 = exampleIndex \<and>
   snd (searchByLanguage 0 ''python'' exampleHeap) ! 0 = exampleIndex \<and>
   snd (searchByTags 0 [''security''] exampleHeap) ! 0 = exampleIndex \<and>
   snd (getAllRules 0 exampleHeap) ! 0 = exampleIndex"
    using T unfolding i by blast
  show ?thesis using l f g by (simp add: e)
qed

text \<open>
  C9. The claim: for every index and every list \<open>T\<close> of query tags, \<open>searchByTags(T)\<close>
  returns exactly the rules whose set of tags meets \<open>T\<close>, and it raises no error. The
  loader copies the header's \<open>tags\<close> unchecked. A rule loaded from a header with
  \<open>tags: 5\<close> makes \<open>searchByTags(["nonexistent-tag"])\<close> throw a \<open>TypeError\<close>; a rule
  loaded from a header with \<open>tags: security\<close> has a string for its tags, and
  \<open>searchByTags(["sec"])\<close> returns it, though \<open>sec\<close> is no tag of it.
\<close>

theorem C9_tags_not_a_list:
  "tags (metadata numberTagsRule) = JNum 5 \<and>
   searchByTags 0 [''nonexistent-tag''] [[numberTagsRule]] = (Inl TypeError, [[numberTagsRule]]) \<and>
   tags (metadata stringTagsRule) = JStr ''security'' \<and>
   searchByTags 0 [''sec''] [[stringTagsRule]]
     = (Inr 1, [[stringTagsRule], [stringTagsRule]])"
  using numberTagsRule_tags stringTagsRule_tags number_tags_throw string_tags_substring
  by (simp add: searchByTags_def arrayFilterE_def newArray_def)

text \<open>
  C9, amended. For every index in which the tags of every rule are an array (of any
  values) and every list \<open>T\<close> of query tags, \<open>searchByTags(T)\<close> raises no error and
  returns exactly the rules one of whose tags is a string of \<open>T\<close>, in index order; so
  when no rule has a tag in \<open>T\<close> the result is the empty array. For the empty \<open>T\<close>
  the result is the empty array and no error is raised, whatever the tags of the rules
  are.
\<close>

theorem C9_searchByTags_any_tag:
  assumes "this < length h"
  shows "((\<forall>r \<in> set (h ! this). \<exists>xs. tags (metadata r) = JArr xs) \<longrightarrow>
            (\<exists>a h'. searchByTags this T h = (Inr a, h') \<and>
               h' ! a = filter (\<lambda>r. tagSet r \<inter> JStr ` set T \<noteq> {}) (h ! this) \<and>
               ((\<forall>r \<in> set (h ! this). tagSet r \<inter> JStr ` set T = {}) \<longrightarrow> h' ! a = []))) \<and>
         (\<exists>a h'. searchByTags this [] h = (Inr a, h') \<and> h' ! a = [])"
proof -
  have 1: "\<exists>a h'. searchByTags this T h = (Inr a, h') \<and>
               h' ! a = filter (\<lambda>r. tagSet r \<inter> JStr ` set T \<noteq> {}) (h ! this) \<and>
               ((\<forall>r \<in> set (h ! this). tagSet r \<inter> JStr ` set T = {}) \<longrightarrow> h' ! a = [])"
    if "\<forall>r \<in> set (h ! this). \<exists>xs. tags (metadata r) = JArr xs"
    using filterE_tags_arrays[OF that, of T]
    by (simp add: searchByTags_def arrayFilterE_def newArray_def filter_empty_conv)
  have 2: "\<exists>a h'. searchByTags this [] h = (Inr a, h') \<and> h' ! a = []"
    using filterE_no_query[of "h ! this"]
    by (simp add: searchByTags_def arrayFilterE_def newArray_def)
  from 1 2 show ?thesis by blast
qed

theorem C9_searchByTags_any_tag_witness:
  "0 < length exampleHeap \<and>
   list_all (\<lambda>r. \<exists>xs. tags (metadata r) = JArr xs) (exampleHeap ! 0) \<and>
   list_all (\<lambda>r. tagSet r \<inter> JStr ` set [''nonexistent-tag''] = {}) (exampleHeap ! 0) \<and>
   (\<exists>a h'. searchByTags 0 [''nonexistent-tag''] exampleHeap = (Inr a, h') \<and> h' ! a = []) \<and>
   (\<exists>a h'. searchByTags 0 [''security'', ''tdd''] exampleHeap = (Inr a, h') \<and>
      map (\<lambda>r. rule_id (metadata r)) (h' ! a) = [JStr ''python-rules'', JStr ''testing-rules''])"
proof -
  have l: "0 < length exampleHeap" by (simp add: exampleHeap_def)
  have i: "exampleHeap ! 0 = exampleIndex" by (simp add: exampleHeap_def)
  have ar: "list_all (\<lambda>r. \<exists>xs. tags (metadata r) = JArr xs) (exampleHeap ! 0)"
    by (simp add: i exampleIndex_def mkRule_def)
  then have ar': "\<forall>r \<in> set (exampleHeap ! 0). \<exists>xs. tags (metadata r) = JArr xs"
    by (simp only: list_all_iff)
  have n: "list_all (\<lambda>r. tagSet r \<inter> JStr ` set [''nonexistent-tag''] = {}) (exampleHeap ! 0)"
    by (simp add: i exampleIndex_def mkRule_def tagSet_def)
  then have n': "\<forall>r \<in> set (exampleHeap ! 0). tagSet r \<inter> JStr ` set [''nonexistent-tag''] = {}"
    by (simp only: list_all_iff)
  have a: "\<exists>a h'. searchByTags 0 [''nonexistent-tag''] exampleHeap = (Inr a, h') \<and> h' ! a = []"
    using C9_searchByTags_any_tag[OF l, of "[''nonexistent-tag'']"] ar' n' by blast
  from C9_searchByTags_any_tag[OF l, of "[''security'', ''tdd'']"] ar'
  obtain a h' where s: "searchByTags 0 [''security'', ''tdd''] exampleHeap = (Inr a, h')"
    and f: "h' ! a = filter (\<lambda>r. tagSet r \<inter> JStr ` set [''security'', ''tdd''] \<noteq> {})
                       (exampleHeap ! 0)"
    by blast
  have m: "map (\<lambda>r. rule_id (metadata r)) (h' ! a) = [JStr ''python-rules'', JStr ''testing-rules'']"
    unfolding f by (simp add: i exampleIndex_def mkRule_def tagSet_def)
  have b: "\<exists>a h'. searchByTags 0 [''security'', ''tdd''] exampleHeap = (Inr a, h') \<and>
      map (\<lambda>r. rule_id (metadata r)) (h' ! a) = [JStr ''python-rules'', JStr ''testing-rules'']"
    by (intro exI[of _ a] exI[of _ h'] conjI) (rule s, rule m)
  from l ar n a b show ?thesis by (simp only: simp_thms)
qed



end
